theory Spec2Isabelle
  imports Complex_Main "HOL-Library.Word" "HOL-Library.Log_Nat"
begin

section \<open>IEEE binary64 values and the C++ conversions the time header uses\<close>

text \<open>
  A finite \<open>double\<close> is modelled by the rational number it denotes. Every arithmetic
  operation of the source on doubles is the exact operation followed by \<open>to_double\<close>,
  rounding to the nearest value with a 53-bit significand, ties to the even significand
  (the default rounding mode). The exponent is not bounded: infinities, NaN and
  subnormal numbers are outside the model.
\<close>

type_synonym double = rat

definition pow2 :: "int \<Rightarrow> rat" where
  "pow2 e = (if 0 \<le> e then 2 ^ nat e else 1 / 2 ^ nat (- e))"

definition rint_even :: "rat \<Rightarrow> int" where
  "rint_even x =
     (let f = \<lfloor>x\<rfloor>; r = x - of_int f
      in if r < 1 / 2 then f
         else if 1 / 2 < r then f + 1
         else if even f then f else f + 1)"

text \<open>\<open>ilog2 x\<close> is \<open>\<lfloor>log\<^sub>2 x\<rfloor>\<close> for a positive rational \<open>x\<close>.\<close>

definition ilog2 :: "rat \<Rightarrow> int" where
  "ilog2 x =
     (let k = bitlen (fst (quotient_of x)) - bitlen (snd (quotient_of x))
      in if pow2 k \<le> x then k else k - 1)"

definition to_double :: "rat \<Rightarrow> double" where
  "to_double x =
     (if x = 0 then 0
      else let a = \<bar>x\<bar>; e = ilog2 a - 52
           in sgn x * of_int (rint_even (a / pow2 e)) * pow2 e)"

definition dadd :: "double \<Rightarrow> double \<Rightarrow> double" where
  "dadd x y = to_double (x + y)"

definition dsub :: "double \<Rightarrow> double \<Rightarrow> double" where
  "dsub x y = to_double (x - y)"

definition dmul :: "double \<Rightarrow> double \<Rightarrow> double" where
  "dmul x y = to_double (x * y)"

definition ddiv :: "double \<Rightarrow> double \<Rightarrow> double" where
  "ddiv x y = to_double (x / y)"

text \<open>\<open>floor\<close> and \<open>std::round\<close> (halves away from zero) return integral doubles.\<close>

definition cfloor :: "double \<Rightarrow> double" where
  "cfloor x = of_int \<lfloor>x\<rfloor>"

definition cround :: "double \<Rightarrow> double" where
  "cround x = (if 0 \<le> x then of_int \<lfloor>x + 1 / 2\<rfloor> else - of_int \<lfloor>- x + 1 / 2\<rfloor>)"

text \<open>
  A cast from double to an integer type drops the fraction (towards zero). When the
  result does not fit the target type, C++ leaves the cast undefined. The cast to
  \<open>uint32_t\<close> is therefore the truncated value where it fits, and elsewhere whatever
  the platform's conversion leaves: the parameter \<open>oor\<close>, about which nothing is
  assumed.
\<close>

definition ctrunc :: "double \<Rightarrow> int" where
  "ctrunc x = (if 0 \<le> x then \<lfloor>x\<rfloor> else \<lceil>x\<rceil>)"

definition u32_of_double :: "(double \<Rightarrow> 32 word) \<Rightarrow> double \<Rightarrow> 32 word" where
  "u32_of_double oor x =
     (if 0 \<le> ctrunc x \<and> ctrunc x < 2 ^ 32 then word_of_int (ctrunc x) else oor x)"

text \<open>
  One such conversion, that of the x86-64 compilers: the double is converted by the
  64-bit instruction \<open>cvttsd2si\<close> and the low 32 bits are kept. A value outside the
  signed 64-bit range gives the bit pattern \<open>0x8000000000000000\<close>, whose low half is
  zero.
\<close>

definition cast_x86_64 :: "double \<Rightarrow> 32 word" where
  "cast_x86_64 x =
     (if - (2 ^ 63) \<le> ctrunc x \<and> ctrunc x < 2 ^ 63 then word_of_int (ctrunc x) else 0)"

text \<open>
  The two casts to 64-bit types are only applied to products that fit the target type
  (\<open>NanoFromSeconds_word\<close> and \<open>seconds_product_fits\<close> below).
\<close>

definition u64_of_double :: "double \<Rightarrow> 64 word" where
  "u64_of_double x = word_of_int (ctrunc x)"

definition i64_of_double :: "double \<Rightarrow> 64 word" where
  "i64_of_double x = word_of_int (ctrunc x)"

definition double_of_u32 :: "32 word \<Rightarrow> double" where
  "double_of_u32 w = to_double (of_int (uint w))"

definition double_of_i32 :: "32 word \<Rightarrow> double" where
  "double_of_i32 w = to_double (of_int (sint w))"

definition double_of_u64 :: "64 word \<Rightarrow> double" where
  "double_of_u64 w = to_double (of_int (uint w))"

section \<open>okvis\_util/Time.hpp\<close>

text \<open>\<open>TimeBase\<close>: the two public fields \<open>uint32_t sec, nsec\<close>.\<close>

record Time =
  sec :: "32 word"
  nsec :: "32 word"

text \<open>
  Modelled from the spec: \<open>normalizeSecNSec(uint32_t&, uint32_t&)\<close> is declared in
  the header and defined elsewhere. The spec says of it that normalization keeps the
  sub-second component within \<open>[0, 1e9)\<close> nanoseconds; the whole seconds held in
  \<open>nsec\<close> are carried into \<open>sec\<close>.
\<close>

definition normalizeSecNSec :: "32 word \<times> 32 word \<Rightarrow> 32 word \<times> 32 word" where
  "normalizeSecNSec p =
     (case p of (s, n) \<Rightarrow> (s + n div 1000000000, n mod 1000000000))"

text \<open>\<open>TimeBase(uint32_t _sec, uint32_t _nsec)\<close>: stores both and normalizes.\<close>

definition Time_ctor :: "32 word \<Rightarrow> 32 word \<Rightarrow> Time" where
  "Time_ctor s n = (case normalizeSecNSec (s, n) of (s', n') \<Rightarrow> \<lparr>sec = s', nsec = n'\<rparr>)"

text \<open>
  \<open>fromSec(double t)\<close> assigns both fields, so the object it returns does not depend
  on the object it is called on; \<open>TimeBase(double t)\<close> and \<open>Time(double t)\<close> only call
  it. The subtraction reads the field \<open>sec\<close> that was just assigned.
\<close>

definition fromSec :: "(double \<Rightarrow> 32 word) \<Rightarrow> double \<Rightarrow> Time" where
  "fromSec oor t =
     (let s = u32_of_double oor (cfloor t);
          n = u32_of_double oor (cround (dmul (dsub t (double_of_u32 s)) 1000000000))
      in \<lparr>sec = s, nsec = n\<rparr>)"

definition Time_of_double :: "(double \<Rightarrow> 32 word) \<Rightarrow> double \<Rightarrow> Time" where
  "Time_of_double oor t = fromSec oor t"

text \<open>\<open>toSec\<close>: \<open>(double) sec + 1e-9 * (double) nsec\<close>; the literal is itself rounded.\<close>

definition toSec :: "Time \<Rightarrow> double" where
  "toSec tm =
     dadd (double_of_u32 (sec tm))
          (dmul (to_double (1 / 1000000000)) (double_of_u32 (nsec tm)))"

text \<open>\<open>toNSec\<close>: 64-bit unsigned arithmetic.\<close>

definition toNSec :: "Time \<Rightarrow> 64 word" where
  "toNSec tm = ucast (sec tm) * 1000000000 + ucast (nsec tm)"

text \<open>
  \<open>NanoFromSeconds(int32_t value)\<close>: the parameter is a signed 32-bit integer, the
  product is taken in double.
\<close>

definition NanoFromSeconds :: "32 word \<Rightarrow> 64 word" where
  "NanoFromSeconds v = i64_of_double (dmul (double_of_i32 v) 1000000000)"

text \<open>
  \<open>TimeToNanoseconds\<close>: \<open>time.sec\<close> is widened to \<open>int64_t\<close> by the cast and narrowed
  to the \<open>int32_t\<close> parameter by the call; the result is an \<open>int64_t\<close>, read by \<open>sint\<close>.
\<close>

definition TimeToNanoseconds :: "Time \<Rightarrow> 64 word" where
  "TimeToNanoseconds tm =
     NanoFromSeconds (ucast (ucast (sec tm) :: 64 word)) + ucast (nsec tm)"

text \<open>
  \<open>NanosecondsToTime\<close>: \<open>time / 1e9\<close> converts the 64-bit count to double and divides
  in double; \<open>sec * 1e9\<close> is again a double product.
\<close>

definition NanosecondsToTime_args ::
  "(double \<Rightarrow> 32 word) \<Rightarrow> 64 word \<Rightarrow> 32 word \<times> 32 word" where
  "NanosecondsToTime_args oor t =
     (let s = u32_of_double oor (ddiv (double_of_u64 t) 1000000000);
          n = ucast (t - u64_of_double (dmul (double_of_u32 s) 1000000000))
      in (s, n))"

definition NanosecondsToTime :: "(double \<Rightarrow> 32 word) \<Rightarrow> 64 word \<Rightarrow> Time" where
  "NanosecondsToTime oor t =
     (case NanosecondsToTime_args oor t of (s, n) \<Rightarrow> Time_ctor s n)"

section \<open>pose-spline/VectorSpaceSpline.hpp\<close>

text \<open>
  A \<open>double*\<close> handle is an address; \<open>memory\<close> is the storage the handles lead to
  (three doubles per control point). The first three fields are the private members
  the class declares. \<open>spline_order\<close> is the constructor's argument and \<open>t0\<close> the time
  of the first knot; both are kept by the base class \<open>BSpline\<close>.
\<close>

type_synonym addr = nat

type_synonym Vector3d = "double \<times> double \<times> double"

record VectorSpaceSpline =
  mControlPointsParameter :: "addr list"
  mSampleValues :: "double \<rightharpoonup> Vector3d"
  mTimeInterval :: double
  spline_order :: nat
  t0 :: double
  memory :: "addr \<Rightarrow> Vector3d"

datatype exn = out_of_range

text \<open>\<open>std::vector::at\<close> throws \<open>std::out_of_range\<close> unless the index is below the size.\<close>

definition at_vec :: "'a list \<Rightarrow> nat \<Rightarrow> exn + 'a" where
  "at_vec xs n = (if n < length xs then Inr (xs ! n) else Inl out_of_range)"

definition getControlPointNum :: "VectorSpaceSpline \<Rightarrow> nat" where
  "getControlPointNum s = length (mControlPointsParameter s)"

text \<open>
  \<open>getControlPoint(unsigned int i)\<close> is a non-const member: it returns its result
  together with the object as the call leaves it.
\<close>

definition getControlPoint ::
  "VectorSpaceSpline \<Rightarrow> 32 word \<Rightarrow> (exn + addr) \<times> VectorSpaceSpline" where
  "getControlPoint s i = (at_vec (mControlPointsParameter s) (unat i), s)"

subsection \<open>Members declared in the header and defined elsewhere\<close>

text \<open>
  Modelled from the spec: the generic B-spline base and the bodies of \<open>isTsEvaluable\<close>,
  \<open>addSample\<close> and \<open>initialNewControlPoint\<close> are not among the sources. The spec places
  the knot of control point \<open>i\<close> at \<open>t0 + i * interval\<close>. It asks for enough control
  points at or before and at or after a query time, as the order requires, without
  giving the two numbers: they are the parameters \<open>nb\<close> and \<open>na\<close>, functions of the
  order. Times are exact rationals here.
\<close>

definition knot_time :: "VectorSpaceSpline \<Rightarrow> nat \<Rightarrow> double" where
  "knot_time s i = t0 s + of_nat i * mTimeInterval s"

text \<open>
  Modelled from the spec: the end points of the supported interval, which the base
  class would compute. The lower one is the first knot with \<open>nb\<close> control points at or
  before it, the upper one the last knot with \<open>na\<close> control points at or after it (the
  end of the knot span minus the look-ahead).
\<close>

definition support_lo :: "(nat \<Rightarrow> nat) \<Rightarrow> VectorSpaceSpline \<Rightarrow> double" where
  "support_lo nb s = t0 s + (of_nat (nb (spline_order s)) - 1) * mTimeInterval s"

definition support_hi :: "(nat \<Rightarrow> nat) \<Rightarrow> VectorSpaceSpline \<Rightarrow> double" where
  "support_hi na s =
     t0 s + (of_nat (getControlPointNum s) - of_nat (na (spline_order s))) * mTimeInterval s"

text \<open>
  Modelled from the spec: \<open>isTsEvaluable(ts)\<close> is declared only. It answers whether
  \<open>ts\<close> lies in the closed interval between the two end points.
\<close>

definition isTsEvaluable ::
  "(nat \<Rightarrow> nat) \<Rightarrow> (nat \<Rightarrow> nat) \<Rightarrow> VectorSpaceSpline \<Rightarrow> double \<Rightarrow> bool" where
  "isTsEvaluable nb na s ts = (support_lo nb s \<le> ts \<and> ts \<le> support_hi na s)"

text \<open>
  Modelled from the spec: its words for the supported times ("bracketed by enough
  control points on both sides"), stated on the control points themselves: at least
  \<open>nb\<close> of them have their knot at or before \<open>ts\<close> and at least \<open>na\<close> of them at or
  after it.
\<close>

definition bracketed ::
  "(nat \<Rightarrow> nat) \<Rightarrow> (nat \<Rightarrow> nat) \<Rightarrow> VectorSpaceSpline \<Rightarrow> double \<Rightarrow> bool" where
  "bracketed nb na s ts =
     (nb (spline_order s)
        \<le> length (filter (\<lambda>i. knot_time s i \<le> ts) [0..<getControlPointNum s])
      \<and> na (spline_order s)
        \<le> length (filter (\<lambda>i. ts \<le> knot_time s i) [0..<getControlPointNum s]))"

text \<open>
  Modelled from the spec: \<open>initialNewControlPoint\<close> is declared only. It appends one
  control point in fresh storage. Its value comes from a policy the spec leaves to the
  implementation: the parameter \<open>seed\<close>.
\<close>

definition fresh_addr :: "VectorSpaceSpline \<Rightarrow> addr" where
  "fresh_addr s = Suc (fold max (mControlPointsParameter s) 0)"

definition initialNewControlPoint ::
  "(VectorSpaceSpline \<Rightarrow> Vector3d) \<Rightarrow> VectorSpaceSpline \<Rightarrow> VectorSpaceSpline" where
  "initialNewControlPoint seed s =
     s\<lparr>mControlPointsParameter := mControlPointsParameter s @ [fresh_addr s],
       memory := (memory s)(fresh_addr s := seed s)\<rparr>"

text \<open>
  Modelled from the spec: the extension loop of \<open>addSample\<close>. Control points are
  appended as long as the sample's time lies beyond the supported interval. A loop
  that never ends is \<open>None\<close>.
\<close>

partial_function (option) extend_to ::
  "(nat \<Rightarrow> nat) \<Rightarrow> (VectorSpaceSpline \<Rightarrow> Vector3d) \<Rightarrow> double \<Rightarrow> VectorSpaceSpline
     \<Rightarrow> VectorSpaceSpline option" where
  "extend_to na seed ts s =
     (if support_hi na s < ts then extend_to na seed ts (initialNewControlPoint seed s)
      else Some s)"

declare extend_to.simps [code]

text \<open>
  Modelled from the spec: \<open>addSample(t, Q)\<close> is declared only. A sample earlier than
  the start of the span is ignored; otherwise the store is extended as far as the
  sample needs and the sample is recorded under its time.
\<close>

definition addSample ::
  "(nat \<Rightarrow> nat) \<Rightarrow> (VectorSpaceSpline \<Rightarrow> Vector3d) \<Rightarrow> VectorSpaceSpline \<Rightarrow> double \<Rightarrow> Vector3d
     \<Rightarrow> VectorSpaceSpline option" where
  "addSample na seed s ts Q =
     (if ts < t0 s then Some s
      else case extend_to na seed ts s of
             None \<Rightarrow> None
           | Some s' \<Rightarrow> Some (s'\<lparr>mSampleValues := (mSampleValues s')(ts \<mapsto> Q)\<rparr>))"

text \<open>
  A spline of order 4 with five control points a tenth of a second apart, for
  concrete evaluations.
\<close>

definition spline5 :: VectorSpaceSpline where
  "spline5 =
     \<lparr>mControlPointsParameter = [10, 11, 12, 13, 14], mSampleValues = Map.empty,
      mTimeInterval = 1 / 10, spline_order = 4, t0 = 0, memory = (\<lambda>a. (0, 0, 0))\<rparr>"

text \<open>
  The scenario of the spec: order 4, interval a tenth of a second, one control point
  per knot from \<open>0.0\<close> to \<open>1.0\<close>.
\<close>

definition spline11 :: VectorSpaceSpline where
  "spline11 =
     \<lparr>mControlPointsParameter = [20, 21, 22, 23, 24, 25, 26, 27, 28, 29, 30],
      mSampleValues = Map.empty, mTimeInterval = 1 / 10, spline_order = 4, t0 = 0,
      memory = (\<lambda>a. (0, 0, 0))\<rparr>"

section \<open>Properties of the rounding\<close>

text \<open>
  \<open>to_double\<close> scales its argument into the range of 53-bit significands, rounds
  there to an integer and scales back: the result is within half a unit in the last
  place of the argument, and a value that has a 53-bit significand is left as it is.
\<close>

lemma pow2_pos: "0 < pow2 e"
  by (simp add: pow2_def)

lemma pow2_powi: "pow2 e = 2 powi e"
  by (simp add: pow2_def power_int_def field_simps)

lemma pow2_add: "pow2 (a + b) = pow2 a * pow2 b"
  by (simp add: pow2_powi power_int_add)

lemma pow2_nat: "pow2 (int n) = 2 ^ n"
  by (simp add: pow2_def)

lemma ilog2_bounds:
  assumes x: "0 < x"
  shows "pow2 (ilog2 x) \<le> x \<and> x < pow2 (ilog2 x + 1)"
proof -
  obtain p q where pq: "quotient_of x = (p, q)" by (cases "quotient_of x")
  have q: "0 < q" using quotient_of_denom_pos [OF pq] .
  have xe: "x = of_int p / of_int q" using quotient_of_div [OF pq] .
  have p: "0 < p" using x q by (simp add: xe zero_less_divide_iff)
  let ?bp = "bitlen p" and ?bq = "bitlen q"
  have bp1: "1 \<le> ?bp" using p by (simp add: bitlen_alt_def)
  have bq1: "1 \<le> ?bq" using q by (simp add: bitlen_alt_def)
  have pl: "pow2 (?bp - 1) \<le> of_int p" and pu: "of_int p < pow2 ?bp"
  proof -
    from bitlen_bounds [OF p] have a: "2 ^ nat (?bp - 1) \<le> p" and b: "p < 2 ^ nat ?bp" by simp_all
    from a have "(of_int (2 ^ nat (?bp - 1)) :: rat) \<le> of_int p" by (simp only: of_int_le_iff)
    then show "pow2 (?bp - 1) \<le> of_int p" using bp1 by (simp add: pow2_def)
    from b have "(of_int p :: rat) < of_int (2 ^ nat ?bp)" by (simp only: of_int_less_iff)
    then show "of_int p < pow2 ?bp" using bp1 by (simp add: pow2_def)
  qed
  have ql: "pow2 (?bq - 1) \<le> of_int q" and qu: "of_int q < pow2 ?bq"
  proof -
    from bitlen_bounds [OF q] have a: "2 ^ nat (?bq - 1) \<le> q" and b: "q < 2 ^ nat ?bq" by simp_all
    from a have "(of_int (2 ^ nat (?bq - 1)) :: rat) \<le> of_int q" by (simp only: of_int_le_iff)
    then show "pow2 (?bq - 1) \<le> of_int q" using bq1 by (simp add: pow2_def)
    from b have "(of_int q :: rat) < of_int (2 ^ nat ?bq)" by (simp only: of_int_less_iff)
    then show "of_int q < pow2 ?bq" using bq1 by (simp add: pow2_def)
  qed
  let ?k = "?bp - ?bq"
  have qr: "(0::rat) < of_int q" using q by simp
  have upper: "x < pow2 (?k + 1)"
  proof -
    have "pow2 (?k + 1) * pow2 (?bq - 1) = pow2 ?bp"
      by (simp add: pow2_add [symmetric])
    then have "of_int p < pow2 (?k + 1) * pow2 (?bq - 1)" using pu by simp
    also have "\<dots> \<le> pow2 (?k + 1) * of_int q"
      using ql pow2_pos [of "?k + 1"] by (simp add: mult_left_mono)
    finally show ?thesis using qr by (simp add: xe pos_divide_less_eq)
  qed
  have lower: "pow2 (?k - 1) \<le> x"
  proof -
    have "pow2 (?k - 1) * pow2 ?bq = pow2 (?bp - 1)"
      by (simp add: pow2_add [symmetric])
    have "pow2 (?k - 1) * of_int q \<le> pow2 (?k - 1) * pow2 ?bq"
      using qu pow2_pos [of "?k - 1"] by (simp add: mult_left_mono)
    also have "\<dots> = pow2 (?bp - 1)" by (simp add: pow2_add [symmetric])
    also have "\<dots> \<le> of_int p" by (rule pl)
    finally show ?thesis using qr by (simp add: xe pos_le_divide_eq)
  qed
  show ?thesis
  proof (cases "pow2 ?k \<le> x")
    case True
    then have "ilog2 x = ?k" by (simp add: ilog2_def pq)
    with True upper show ?thesis by simp
  next
    case False
    then have "ilog2 x = ?k - 1" by (simp add: ilog2_def pq)
    with False lower show ?thesis by simp
  qed
qed

lemma rint_even_near: "\<bar>of_int (rint_even y) - y\<bar> \<le> 1 / 2"
proof -
  have "of_int \<lfloor>y\<rfloor> \<le> y" "y < of_int \<lfloor>y\<rfloor> + 1" by linarith+
  then show ?thesis by (auto simp add: rint_even_def Let_def abs_le_iff)
qed

lemma to_double_near:
  assumes x: "x \<noteq> 0"
  shows "\<bar>to_double x - x\<bar> \<le> pow2 (ilog2 \<bar>x\<bar> - 53)"
proof -
  let ?e = "ilog2 \<bar>x\<bar> - 52"
  let ?m = "rint_even (\<bar>x\<bar> / pow2 ?e)"
  have pe: "0 < pow2 ?e" by (rule pow2_pos)
  have td: "to_double x = sgn x * of_int ?m * pow2 ?e"
    using x by (simp add: to_double_def Let_def)
  have "(of_int ?m - \<bar>x\<bar> / pow2 ?e) * pow2 ?e = of_int ?m * pow2 ?e - \<bar>x\<bar>"
    using pe by (simp add: left_diff_distrib)
  then have "sgn x * ((of_int ?m - \<bar>x\<bar> / pow2 ?e) * pow2 ?e)
      = sgn x * of_int ?m * pow2 ?e - sgn x * \<bar>x\<bar>"
    by (simp add: right_diff_distrib mult.assoc)
  then have "to_double x - x = sgn x * ((of_int ?m - \<bar>x\<bar> / pow2 ?e) * pow2 ?e)"
    by (simp add: td sgn_mult_abs)
  then have "\<bar>to_double x - x\<bar> = \<bar>of_int ?m - \<bar>x\<bar> / pow2 ?e\<bar> * pow2 ?e"
    using x pe by (simp add: abs_mult abs_sgn_eq)
  also have "\<dots> \<le> 1 / 2 * pow2 ?e"
    using rint_even_near [of "\<bar>x\<bar> / pow2 ?e"] pe by (simp add: mult_right_mono)
  also have "1 / 2 * pow2 ?e = pow2 (ilog2 \<bar>x\<bar> - 53)"
  proof -
    have "pow2 (- 1) = 1 / 2" by (simp add: pow2_def)
    moreover have "ilog2 \<bar>x\<bar> - 53 = - 1 + ?e" by simp
    ultimately show ?thesis by (simp only: pow2_add)
  qed
  finally show ?thesis .
qed

lemma significand_range:
  assumes x: "0 < x"
  shows "2 ^ 52 \<le> x / pow2 (ilog2 x - 52) \<and> x / pow2 (ilog2 x - 52) < 2 ^ 53"
proof -
  let ?l = "ilog2 x"
  have pe: "0 < pow2 (?l - 52)" by (rule pow2_pos)
  have a: "pow2 ?l = 2 ^ 52 * pow2 (?l - 52)"
    using pow2_add [of 52 "?l - 52"] pow2_nat [of 52] by simp
  have b: "pow2 (?l + 1) = 2 ^ 53 * pow2 (?l - 52)"
    using pow2_add [of 53 "?l - 52"] pow2_nat [of 53] by (simp add: add.commute)
  from ilog2_bounds [OF x] a b pe show ?thesis
    by (simp add: pos_le_divide_eq pos_divide_less_eq)
qed

lemma pow2_mono: "a \<le> b \<Longrightarrow> pow2 a \<le> pow2 b"
  by (simp add: pow2_powi power_int_increasing)

lemma rint_even_of_int: "rint_even (of_int z) = z"
  by (simp add: rint_even_def)

lemma to_double_minus: "to_double (- x) = - to_double x"
  by (simp add: to_double_def Let_def sgn_minus)

lemma to_double_exact_pos:
  assumes m: "0 < m" "m < 2 ^ 53"
  shows "to_double (of_int m * pow2 k) = of_int m * pow2 k"
proof -
  define x :: rat where "x = of_int m * pow2 k"
  define e where "e = ilog2 x - 52"
  have xp: "0 < x" using m pow2_pos [of k] by (simp add: x_def)
  have pe: "0 < pow2 e" by (rule pow2_pos)
  have ke: "e \<le> k"
  proof (rule ccontr)
    assume "\<not> e \<le> k"
    then have "k + 53 \<le> ilog2 x" by (simp add: e_def)
    then have "pow2 (k + 53) \<le> pow2 (ilog2 x)" by (rule pow2_mono)
    also have "\<dots> \<le> x" using ilog2_bounds [OF xp] by simp
    finally have "pow2 53 * pow2 k \<le> of_int m * pow2 k"
      by (simp add: pow2_add mult.commute x_def)
    then have "pow2 53 \<le> (of_int m :: rat)" using pow2_pos [of k] by simp
    moreover have "(of_int m :: rat) < of_int (2 ^ 53)" using m by (simp only: of_int_less_iff)
    ultimately show False using pow2_nat [of 53] by simp
  qed
  define n where "n = nat (k - e)"
  have "k = int n + e" using ke by (simp add: n_def)
  then have "pow2 k = pow2 (int n) * pow2 e" by (simp only: pow2_add)
  then have pk: "pow2 k = 2 ^ n * pow2 e" by (simp only: pow2_nat)
  have xe: "x = of_int (m * 2 ^ n) * pow2 e" by (simp add: x_def pk)
  have y: "\<bar>x\<bar> / pow2 e = of_int (m * 2 ^ n)"
    using xp pe by (simp add: xe)
  have "to_double x = sgn x * of_int (rint_even (\<bar>x\<bar> / pow2 e)) * pow2 e"
    using xp by (simp add: to_double_def Let_def e_def)
  also have "\<dots> = of_int (m * 2 ^ n) * pow2 e"
    using xp by (simp only: y rint_even_of_int) simp
  also have "\<dots> = x" by (simp only: xe)
  finally show ?thesis by (simp only: x_def)
qed

lemma to_double_exact:
  assumes m: "\<bar>m\<bar> < 2 ^ 53"
  shows "to_double (of_int m * pow2 k) = of_int m * pow2 k"
proof -
  consider "m = 0" | "0 < m" | "m < 0" by linarith
  then show ?thesis
  proof cases
    case 1
    then show ?thesis by (simp add: to_double_def)
  next
    case 2
    with m show ?thesis by (simp add: to_double_exact_pos)
  next
    case 3
    with m have "0 < - m" "- m < 2 ^ 53" by simp_all
    from to_double_exact_pos [OF this, of k] show ?thesis
      using to_double_minus [of "of_int m * pow2 k"] by simp
  qed
qed

lemma to_double_of_int: "\<bar>m\<bar> < 2 ^ 53 \<Longrightarrow> to_double (of_int m) = of_int m"
  using to_double_exact [of m 0] by (simp add: pow2_def)

lemma double_of_u32_exact: "double_of_u32 w = of_int (uint w)"
proof -
  have "uint w < 2 ^ 32" using uint_bounded [of w] by simp
  then have "\<bar>uint w\<bar> < 2 ^ 53" by simp
  then show ?thesis unfolding double_of_u32_def by (rule to_double_of_int)
qed

lemma to_double_tenth: "to_double (1 / 10) = 3602879701896397 / 36028797018963968"
  by code_simp

lemma to_double_ties_to_even:
  "to_double 9007199254740993 = 9007199254740992"
  "to_double 9007199254740995 = 9007199254740996"
  by code_simp+

section \<open>Properties of the time header\<close>

subsection \<open>Rounding keeps the sign\<close>

lemma rint_even_nonneg: "0 \<le> x \<Longrightarrow> 0 \<le> rint_even x"
proof -
  assume "0 \<le> x"
  then have "0 \<le> \<lfloor>x\<rfloor>" by simp
  then show ?thesis by (simp add: rint_even_def Let_def)
qed

lemma to_double_nonneg: "0 \<le> x \<Longrightarrow> 0 \<le> to_double x"
proof (cases "x = 0")
  case True
  then show ?thesis by (simp add: to_double_def)
next
  case False
  assume "0 \<le> x"
  with False have pos: "0 < x" by simp
  let ?e = "ilog2 \<bar>x\<bar> - 52"
  have "0 \<le> \<bar>x\<bar> / pow2 ?e" using pow2_pos [of ?e] by simp
  then have "0 \<le> rint_even (\<bar>x\<bar> / pow2 ?e)" by (rule rint_even_nonneg)
  then have "0 \<le> (of_int (rint_even (\<bar>x\<bar> / pow2 ?e)) :: rat) * pow2 ?e"
    using pow2_pos [of ?e] by simp
  with pos show ?thesis by (simp add: to_double_def Let_def)
qed

lemma double_of_u32_nonneg: "0 \<le> double_of_u32 w"
proof -
  have "0 \<le> uint w" by simp
  then have "(0::rat) \<le> of_int (uint w)" by (simp only: of_int_0_le_iff)
  then show ?thesis unfolding double_of_u32_def by (rule to_double_nonneg)
qed

lemma toSec_nonneg: "0 \<le> toSec tm"
  unfolding toSec_def dadd_def dmul_def
  by (intro to_double_nonneg add_nonneg_nonneg mult_nonneg_nonneg double_of_u32_nonneg) simp

lemma ctrunc_cfloor: "ctrunc (cfloor t) = \<lfloor>t\<rfloor>"
  by (simp add: ctrunc_def cfloor_def)

text \<open>
  The seconds of a negative time do not fit \<open>uint32_t\<close>: the field holds what the
  conversion leaves.
\<close>

lemma sec_fromSec_negative: "t < 0 \<Longrightarrow> sec (fromSec oor t) = oor (cfloor t)"
proof -
  assume "t < 0"
  then have "\<lfloor>t\<rfloor> < 0" by (simp add: floor_less_iff)
  then have "\<not> 0 \<le> ctrunc (cfloor t)"
    by (simp add: ctrunc_cfloor)
  then have "u32_of_double oor (cfloor t) = oor (cfloor t)"
    by (simp add: u32_of_double_def)
  then show ?thesis by (simp add: fromSec_def Let_def)
qed

text \<open>
  On x86-64 the seconds wrap around modulo \<open>2\<^sup>3\<^sup>2\<close> as long as \<open>\<lfloor>t\<rfloor>\<close> fits 64 signed
  bits, and not beyond.
\<close>

lemma sec_fromSec_x86_64:
  assumes "t < 0" and "- (2 ^ 63) \<le> \<lfloor>t\<rfloor>"
  shows "uint (sec (fromSec cast_x86_64 t)) = \<lfloor>t\<rfloor> mod 2 ^ 32"
proof -
  have "\<lfloor>t\<rfloor> < 0" using assms(1) by (simp add: floor_less_iff)
  then have "\<lfloor>t\<rfloor> < 2 ^ 63" by simp
  with assms(2) have "cast_x86_64 (cfloor t) = word_of_int \<lfloor>t\<rfloor>"
    by (simp add: cast_x86_64_def ctrunc_cfloor)
  then show ?thesis
    using sec_fromSec_negative [OF assms(1), of cast_x86_64]
    by (simp add: uint_word_of_int)
qed

subsection \<open>The two-argument constructor\<close>

text \<open>
  With the normalization the spec describes, the constructor from seconds and
  nanoseconds always leaves fewer than \<open>10\<^sup>9\<close> nanoseconds in \<open>nsec\<close>.
\<close>

lemma Time_ctor_normalized: "unat (nsec (Time_ctor s n)) < 1000000000"
proof -
  have "n mod 1000000000 < 1000000000"
    by (rule word_mod_less_divisor) simp
  then have "unat (n mod 1000000000) < unat (1000000000 :: 32 word)"
    by (simp only: word_less_nat_alt)
  then show ?thesis
    by (simp add: Time_ctor_def normalizeSecNSec_def)
qed

subsection \<open>Conversion from seconds\<close>

text \<open>
  Claim C6 says that every timestamp built by \<open>fromSec\<close>, by the constructor from a
  double or by the constructor from seconds and nanoseconds holds fewer than \<open>10\<^sup>9\<close>
  nanoseconds in \<open>nsec\<close>. \<open>fromSec\<close> rounds the sub-second part to the nearest
  nanosecond and, unlike the two-argument constructor, does not normalize afterwards:
  at the double nearest to \<open>0.9999999999\<close> the seconds are \<open>0\<close> and the rounded
  nanoseconds are exactly \<open>10\<^sup>9\<close>.
\<close>

theorem fromSec_not_normalized:
  "fromSec oor (to_double (9999999999 / 10000000000)) = \<lparr>sec = 0, nsec = 1000000000\<rparr>
   \<and> Time_of_double oor (to_double (9999999999 / 10000000000))
     = \<lparr>sec = 0, nsec = 1000000000\<rparr>"
proof -
  have "fromSec oor (to_double (9999999999 / 10000000000)) = \<lparr>sec = 0, nsec = 1000000000\<rparr>"
    by code_simp
  then show ?thesis by (simp add: Time_of_double_def)
qed

text \<open>
  Claim C10 says that a negative time is not representable: for every negative \<open>t\<close>
  the seconds field of \<open>fromSec t\<close> is \<open>\<lfloor>t\<rfloor>\<close> wrapped modulo \<open>2\<^sup>3\<^sup>2\<close>, and
  \<open>toSec\<close> of the result is not \<open>t\<close>. The wrap-around is not what the code gives at
  every negative time: the cast of a negative \<open>\<lfloor>t\<rfloor>\<close> is out of range, and on x86-64
  the seconds of \<open>-10\<^sup>1\<^sup>9\<close> are \<open>0\<close>, while the wrapped value is \<open>1981284352\<close>.
\<close>

theorem fromSec_negative_no_wrap:
  "(- 10000000000000000000 :: rat) < 0
   \<and> to_double (- 10000000000000000000) = - 10000000000000000000
   \<and> uint (sec (fromSec cast_x86_64 (- 10000000000000000000))) = 0
   \<and> \<lfloor>- 10000000000000000000 :: rat\<rfloor> mod 2 ^ 32 = 1981284352"
proof -
  have a: "to_double (- 10000000000000000000) = - 10000000000000000000" by code_simp
  have b: "uint (sec (fromSec cast_x86_64 (- 10000000000000000000))) = 0" by code_simp
  have c: "\<lfloor>- 10000000000000000000 :: rat\<rfloor> mod 2 ^ 32 = 1981284352" by code_simp
  from a b c show ?thesis by simp
qed

text \<open>
  Claim C10 as amended: for every negative \<open>t\<close> the seconds of \<open>fromSec t\<close> are what
  the out-of-range conversion leaves, and whatever it leaves in the two fields,
  \<open>toSec\<close> of the result is not \<open>t\<close>: both fields are unsigned, so \<open>toSec\<close> never
  returns a negative number.
\<close>

theorem fromSec_negative_not_recovered:
  "t < 0 \<Longrightarrow> sec (fromSec oor t) = oor (cfloor t) \<and> toSec (fromSec oor t) \<noteq> t"
  using toSec_nonneg [of "fromSec oor t"] sec_fromSec_negative [of t oor] by auto

theorem fromSec_negative_not_recovered_witness:
  "(- (5 / 2) :: rat) < 0
   \<and> sec (fromSec cast_x86_64 (- (5 / 2))) = cast_x86_64 (cfloor (- (5 / 2)))
   \<and> toSec (fromSec cast_x86_64 (- (5 / 2))) \<noteq> - (5 / 2)"
  using fromSec_negative_not_recovered [of "- (5 / 2)" cast_x86_64] by simp

subsection \<open>Conversions to and from nanosecond counts\<close>

text \<open>
  \<open>toNSec\<close> is exact. \<open>TimeToNanoseconds\<close> reads the seconds as a signed 32-bit
  number, so it agrees with \<open>toNSec\<close> as long as the seconds are below \<open>2\<^sup>3\<^sup>1\<close>.
\<close>

lemma toNSec_exact:
  "uint (toNSec tm) = uint (sec tm) * 1000000000 + uint (nsec tm)"
proof -
  have s: "uint (sec tm) < 2 ^ 32" using uint_bounded [of "sec tm"] by simp
  have n: "uint (nsec tm) < 2 ^ 32" using uint_bounded [of "nsec tm"] by simp
  have s0: "0 \<le> uint (sec tm)" and n0: "0 \<le> uint (nsec tm)" by simp_all
  have us: "uint (ucast (sec tm) :: 64 word) = uint (sec tm)"
    by (simp add: uint_up_ucast is_up)
  have un: "uint (ucast (nsec tm) :: 64 word) = uint (nsec tm)"
    by (simp add: uint_up_ucast is_up)
  have "uint (sec tm) * 1000000000 + uint (nsec tm) < 2 ^ 64" using s n by simp
  moreover have "0 \<le> uint (sec tm) * 1000000000 + uint (nsec tm)" using s0 n0 by simp
  ultimately have "(uint (sec tm) * 1000000000 + uint (nsec tm)) mod 2 ^ 64
      = uint (sec tm) * 1000000000 + uint (nsec tm)"
    by (simp only: mod_pos_pos_trivial)
  then show ?thesis
    by (simp add: toNSec_def uint_word_ariths us un mod_add_left_eq mod_mult_left_eq)
qed

lemma ctrunc_of_int: "ctrunc (of_int z) = z"
  by (simp add: ctrunc_def)

lemma NanoFromSeconds_word: "NanoFromSeconds v = word_of_int (sint v * 1000000000)"
proof -
  have lo: "- (2 ^ 31) \<le> sint v" and hi: "sint v < 2 ^ 31"
    using sint_ge [of v] sint_lt [of v] by simp_all
  then have a: "\<bar>sint v\<bar> < 2 ^ 53" by simp
  have d: "double_of_i32 v = of_int (sint v)"
    unfolding double_of_i32_def using a by (rule to_double_of_int)
  have b: "\<bar>sint v * 1953125\<bar> < 2 ^ 53" using lo hi by simp
  have e: "(of_int (sint v) :: rat) * 1000000000 = of_int (sint v * 1953125) * pow2 9"
    by (simp add: pow2_def)
  have "dmul (double_of_i32 v) 1000000000 = to_double (of_int (sint v) * 1000000000)"
    by (simp only: dmul_def d)
  also have "\<dots> = to_double (of_int (sint v * 1953125) * pow2 9)" by (simp only: e)
  also have "\<dots> = of_int (sint v * 1953125) * pow2 9" by (rule to_double_exact [OF b])
  also have "\<dots> = of_int (sint v * 1000000000)" by (simp add: pow2_def)
  finally have f: "dmul (double_of_i32 v) 1000000000 = of_int (sint v * 1000000000)" .
  have "ctrunc (dmul (double_of_i32 v) 1000000000) = sint v * 1000000000"
    by (simp only: f ctrunc_of_int)
  then show ?thesis
    by (simp add: NanoFromSeconds_def i64_of_double_def)
qed

lemma seconds_product_fits:
  "dmul (double_of_u32 s) 1000000000 = of_int (uint s * 1000000000)
   \<and> 0 \<le> uint s * 1000000000 \<and> uint s * 1000000000 < 2 ^ 64"
proof -
  have u: "uint s < 4294967296" using uint_bounded [of s] by simp
  have u0: "0 \<le> uint s" by simp
  have b: "\<bar>uint s * 1953125\<bar> < 2 ^ 53" using u u0 by simp
  have e: "(of_int (uint s) :: rat) * 1000000000 = of_int (uint s * 1953125) * pow2 9"
    by (simp add: pow2_def)
  have "dmul (double_of_u32 s) 1000000000 = to_double (of_int (uint s) * 1000000000)"
    by (simp only: dmul_def double_of_u32_exact)
  also have "\<dots> = to_double (of_int (uint s * 1953125) * pow2 9)" by (simp only: e)
  also have "\<dots> = of_int (uint s * 1953125) * pow2 9" by (rule to_double_exact [OF b])
  also have "\<dots> = of_int (uint s * 1000000000)" by (simp add: pow2_def)
  finally have f: "dmul (double_of_u32 s) 1000000000 = of_int (uint s * 1000000000)" .
  have "uint s * 1000000000 < 18446744073709551616" using u by linarith
  then have "uint s * 1000000000 < 2 ^ 64" by simp
  with f u0 show ?thesis by simp
qed

lemma TimeToNanoseconds_value:
  "sint (TimeToNanoseconds tm) = sint (sec tm) * 1000000000 + uint (nsec tm)"
proof -
  define z where "z = sint (sec tm) * 1000000000 + uint (nsec tm)"
  have lo: "- 2147483648 \<le> sint (sec tm)" and hi: "sint (sec tm) < 2147483648"
    using sint_ge [of "sec tm"] sint_lt [of "sec tm"] by simp_all
  have n: "uint (nsec tm) < 4294967296" using uint_bounded [of "nsec tm"] by simp
  have c: "(ucast (ucast (sec tm) :: 64 word) :: 32 word) = sec tm"
    by (simp add: ucast_up_ucast_id is_up)
  have "TimeToNanoseconds tm = NanoFromSeconds (sec tm) + ucast (nsec tm)"
    by (simp only: TimeToNanoseconds_def c)
  also have "\<dots> = word_of_int (sint (sec tm) * 1000000000) + word_of_int (uint (nsec tm))"
    by (simp only: NanoFromSeconds_word ucast_eq [of "nsec tm"])
  also have "\<dots> = word_of_int z"
    by (simp only: wi_hom_add z_def)
  finally have w: "TimeToNanoseconds tm = word_of_int z" .
  have "- 9223372036854775808 \<le> z"
    using lo uint_ge_0 [of "nsec tm"] unfolding z_def by linarith
  moreover have "z < 9223372036854775808"
    using hi n unfolding z_def by linarith
  ultimately have "sint (word_of_int z :: 64 word) = z"
    by (simp add: sint_sbintrunc' signed_take_bit_int_eq_self)
  then show ?thesis by (simp only: w z_def)
qed

lemma TimeToNanoseconds_agrees:
  assumes "uint (sec tm) < 2 ^ 31"
  shows "sint (TimeToNanoseconds tm) = uint (toNSec tm)"
proof -
  have "sint (sec tm) = signed_take_bit 31 (uint (sec tm))"
    by (simp add: sint_uint)
  also have "\<dots> = uint (sec tm)"
  proof (rule signed_take_bit_int_eq_self)
    have "- (2 ^ 31) \<le> (0::int)" by simp
    also have "0 \<le> uint (sec tm)" by simp
    finally show "- (2 ^ 31) \<le> uint (sec tm)" .
    show "uint (sec tm) < 2 ^ 31" by (rule assms)
  qed
  finally show ?thesis by (simp add: TimeToNanoseconds_value toNSec_exact)
qed

text \<open>
  Claim C9 says that for a normalized time \<open>NanosecondsToTime (toNSec t)\<close> is \<open>t\<close>
  again and that \<open>TimeToNanoseconds\<close> agrees with \<open>toNSec\<close>. Neither holds.
  \<open>NanosecondsToTime\<close> divides in double: the count of \<open>1400000000.999999999\<close>
  seconds is rounded to that of \<open>1400000001\<close> seconds when it is converted, the
  remainder wraps around, and the constructor receives \<open>4294967295\<close> nanoseconds.
  \<open>TimeToNanoseconds\<close> passes the seconds through a signed 32-bit parameter: from
  \<open>2\<^sup>3\<^sup>1\<close> seconds on, the count is negative, while \<open>toNSec\<close> is exact.
\<close>

theorem nanoseconds_roundtrip_fails:
  "NanosecondsToTime_args oor (toNSec \<lparr>sec = 1400000000, nsec = 999999999\<rparr>)
     = (1400000001, 4294967295)
   \<and> NanosecondsToTime oor (toNSec \<lparr>sec = 1400000000, nsec = 999999999\<rparr>)
     = \<lparr>sec = 1400000005, nsec = 294967295\<rparr>
   \<and> sint (TimeToNanoseconds \<lparr>sec = 2147483648, nsec = 0\<rparr>) = - 2147483648000000000
   \<and> uint (toNSec \<lparr>sec = 2147483648, nsec = 0\<rparr>) = 2147483648000000000"
proof -
  have a: "NanosecondsToTime_args oor (toNSec \<lparr>sec = 1400000000, nsec = 999999999\<rparr>)
     = (1400000001, 4294967295)"
    by code_simp
  have b: "NanosecondsToTime oor (toNSec \<lparr>sec = 1400000000, nsec = 999999999\<rparr>)
     = \<lparr>sec = 1400000005, nsec = 294967295\<rparr>"
    by code_simp
  have c: "sint (TimeToNanoseconds \<lparr>sec = 2147483648, nsec = 0\<rparr>) = - 2147483648000000000"
    by code_simp
  have d: "uint (toNSec \<lparr>sec = 2147483648, nsec = 0\<rparr>) = 2147483648000000000"
    by code_simp
  from a b c d show ?thesis by (intro conjI)
qed

section \<open>Properties of the control-point store\<close>

text \<open>
  Claim C2 says that \<open>getControlPoint i\<close> fails with an out-of-bounds condition for
  every index \<open>i\<close> at or beyond the number of control points, and returns the handle
  stored at position \<open>i\<close> for every index below it.
\<close>

theorem getControlPoint_bounds:
  "(getControlPointNum s \<le> unat i \<longrightarrow> fst (getControlPoint s i) = Inl out_of_range)
   \<and> (unat i < getControlPointNum s \<longrightarrow>
        fst (getControlPoint s i) = Inr (mControlPointsParameter s ! unat i))"
  by (simp add: getControlPoint_def at_vec_def getControlPointNum_def)

theorem getControlPoint_bounds_witness:
  "getControlPointNum spline5 \<le> unat (1000 :: 32 word)
   \<and> fst (getControlPoint spline5 1000) = Inl out_of_range
   \<and> unat (3 :: 32 word) < getControlPointNum spline5
   \<and> fst (getControlPoint spline5 3) = Inr 13"
  using getControlPoint_bounds [of spline5 1000] getControlPoint_bounds [of spline5 3]
  by (simp add: spline5_def getControlPointNum_def)

text \<open>
  Claim C7 says that two calls of \<open>getControlPoint i\<close> at a valid index, with nothing
  in between, return the same value: the call leaves the object as it found it, so
  the second call returns the same handle, and the storage behind it is the same.
\<close>

theorem getControlPoint_twice:
  "unat i < getControlPointNum s \<Longrightarrow>
     (case getControlPoint s i of (r1, s1) \<Rightarrow>
        case getControlPoint s1 i of (r2, s2) \<Rightarrow>
          r1 = r2 \<and> r1 = Inr (mControlPointsParameter s ! unat i) \<and> s1 = s \<and> s2 = s
          \<and> (\<forall>a. r1 = Inr a \<longrightarrow> memory s2 a = memory s a))"
  by (simp add: getControlPoint_def at_vec_def getControlPointNum_def)

theorem getControlPoint_twice_witness:
  "unat (3 :: 32 word) < getControlPointNum spline5
   \<and> (case getControlPoint spline5 3 of (r1, s1) \<Rightarrow>
        case getControlPoint s1 3 of (r2, s2) \<Rightarrow>
          r1 = r2 \<and> r1 = Inr 13 \<and> s1 = spline5 \<and> s2 = spline5)"
  using getControlPoint_twice [of 3 spline5]
  by (simp add: spline5_def getControlPointNum_def getControlPoint_def at_vec_def)

section \<open>Properties of the members modelled from the spec\<close>

subsection \<open>Counting control points on either side of a time\<close>

lemma length_filter_upt_card: "length (filter P [0..<n]) = card {i. i < n \<and> P i}"
proof -
  have "distinct (filter P [0..<n])" by simp
  then have "length (filter P [0..<n]) = card (set (filter P [0..<n]))"
    by (simp only: distinct_card)
  also have "set (filter P [0..<n]) = {i. i < n \<and> P i}" by auto
  finally show ?thesis .
qed

lemma count_down_closed:
  assumes dc: "\<And>i j. i \<le> j \<Longrightarrow> P j \<Longrightarrow> P i" and l: "1 \<le> l"
  shows "l \<le> length (filter P [0..<n]) \<longleftrightarrow> l \<le> n \<and> P (l - 1)"
proof
  let ?S = "{i. i < n \<and> P i}"
  assume a: "l \<le> length (filter P [0..<n])"
  then have c: "l \<le> card ?S" by (simp only: length_filter_upt_card)
  have "card ?S \<le> card {..<n}" by (rule card_mono) auto
  with c have ln: "l \<le> n" by simp
  have "P (l - 1)"
  proof (rule ccontr)
    assume np: "\<not> P (l - 1)"
    have "?S \<subseteq> {..<l - 1}"
    proof
      fix i assume "i \<in> ?S"
      then have "P i" by simp
      with np dc [of "l - 1" i] have "\<not> l - 1 \<le> i" by blast
      then show "i \<in> {..<l - 1}" by simp
    qed
    then have "card ?S \<le> card {..<l - 1}" by (rule card_mono [rotated]) simp
    with c l show False by simp
  qed
  with ln show "l \<le> n \<and> P (l - 1)" by simp
next
  let ?S = "{i. i < n \<and> P i}"
  assume a: "l \<le> n \<and> P (l - 1)"
  have "{..<l} \<subseteq> ?S"
  proof
    fix i assume "i \<in> {..<l}"
    then have il: "i \<le> l - 1" and "i < n" using a by auto
    with dc [OF il] a show "i \<in> ?S" by simp
  qed
  then have "card {..<l} \<le> card ?S" by (rule card_mono [rotated]) simp
  then show "l \<le> length (filter P [0..<n])" by (simp add: length_filter_upt_card)
qed

lemma count_up_closed:
  assumes uc: "\<And>i j. i \<le> j \<Longrightarrow> Q i \<Longrightarrow> Q j" and r: "1 \<le> r"
  shows "r \<le> length (filter Q [0..<n]) \<longleftrightarrow> r \<le> n \<and> Q (n - r)"
proof
  let ?S = "{i. i < n \<and> Q i}"
  assume a: "r \<le> length (filter Q [0..<n])"
  then have c: "r \<le> card ?S" by (simp only: length_filter_upt_card)
  have "card ?S \<le> card {..<n}" by (rule card_mono) auto
  with c have rn: "r \<le> n" by simp
  have "Q (n - r)"
  proof (rule ccontr)
    assume nq: "\<not> Q (n - r)"
    have "?S \<subseteq> {n - r <..< n}"
    proof
      fix i assume i: "i \<in> ?S"
      then have "Q i" by simp
      with nq uc [of i "n - r"] have "\<not> i \<le> n - r" by blast
      with i show "i \<in> {n - r <..< n}" by simp
    qed
    then have "card ?S \<le> card {n - r <..< n}" by (rule card_mono [rotated]) simp
    with c r rn show False by simp
  qed
  with rn show "r \<le> n \<and> Q (n - r)" by simp
next
  let ?S = "{i. i < n \<and> Q i}"
  assume a: "r \<le> n \<and> Q (n - r)"
  have "{n - r ..< n} \<subseteq> ?S"
  proof
    fix i assume "i \<in> {n - r ..< n}"
    then have il: "n - r \<le> i" and "i < n" by auto
    with uc [OF il] a show "i \<in> ?S" by simp
  qed
  then have "card {n - r ..< n} \<le> card ?S" by (rule card_mono [rotated]) simp
  with a show "r \<le> length (filter Q [0..<n])" by (simp add: length_filter_upt_card)
qed

lemma knot_time_mono:
  "0 < mTimeInterval s \<Longrightarrow> i \<le> j \<Longrightarrow> knot_time s i \<le> knot_time s j"
  by (simp add: knot_time_def mult_right_mono)

lemma bracketed_iff:
  assumes d: "0 < mTimeInterval s"
    and nb: "1 \<le> nb (spline_order s)" and na: "1 \<le> na (spline_order s)"
  shows "bracketed nb na s ts \<longleftrightarrow>
     (nb (spline_order s) \<le> getControlPointNum s
        \<and> knot_time s (nb (spline_order s) - 1) \<le> ts)
     \<and> (na (spline_order s) \<le> getControlPointNum s
        \<and> ts \<le> knot_time s (getControlPointNum s - na (spline_order s)))"
proof -
  have dc: "\<And>i j. i \<le> j \<Longrightarrow> knot_time s j \<le> ts \<Longrightarrow> knot_time s i \<le> ts"
    using knot_time_mono [OF d] by (meson order_trans)
  have uc: "\<And>i j. i \<le> j \<Longrightarrow> ts \<le> knot_time s i \<Longrightarrow> ts \<le> knot_time s j"
    using knot_time_mono [OF d] by (meson order_trans)
  show ?thesis
    unfolding bracketed_def
    by (simp only: count_down_closed [of "\<lambda>i. knot_time s i \<le> ts", OF dc nb]
        count_up_closed [of "\<lambda>i. ts \<le> knot_time s i", OF uc na])
qed

lemma support_lo_knot:
  "1 \<le> nb (spline_order s) \<Longrightarrow> support_lo nb s = knot_time s (nb (spline_order s) - 1)"
  by (simp add: support_lo_def knot_time_def of_nat_diff)

lemma support_hi_knot:
  "na (spline_order s) \<le> getControlPointNum s \<Longrightarrow>
     support_hi na s = knot_time s (getControlPointNum s - na (spline_order s))"
  by (simp add: support_hi_def knot_time_def of_nat_diff)

lemma support_nonempty_counts:
  assumes d: "0 < mTimeInterval s"
    and nb: "1 \<le> nb (spline_order s)" and na: "1 \<le> na (spline_order s)"
    and le: "support_lo nb s \<le> support_hi na s"
  shows "nb (spline_order s) \<le> getControlPointNum s \<and> na (spline_order s) \<le> getControlPointNum s"
proof -
  let ?b = "nb (spline_order s)" and ?a = "na (spline_order s)" and ?n = "getControlPointNum s"
  from le have "(of_nat ?b - 1) * mTimeInterval s \<le> (of_nat ?n - of_nat ?a) * mTimeInterval s"
    by (simp add: support_lo_def support_hi_def)
  with d have "(of_nat ?b - 1 :: rat) \<le> of_nat ?n - of_nat ?a"
    by (simp only: mult_le_cancel_right_pos)
  then have "(of_nat (?b + ?a) :: rat) \<le> of_nat (?n + 1)" by simp
  then have "?b + ?a \<le> ?n + 1" by (simp only: of_nat_le_iff)
  with nb na show ?thesis by simp
qed

text \<open>
  Claim C1 says that \<open>isTsEvaluable ts\<close> is true exactly when \<open>ts\<close> lies in the closed
  part of the knot axis that has enough control points on both sides, and false for
  every \<open>ts\<close> outside it. With a positive interval and at least one control point
  required on either side, the times with enough control points on both sides are
  the closed interval from \<open>support_lo\<close> to \<open>support_hi\<close>, and \<open>isTsEvaluable\<close>
  accepts exactly those.
\<close>

theorem isTsEvaluable_closed_support:
  assumes d: "0 < mTimeInterval s"
    and nb: "1 \<le> nb (spline_order s)" and na: "1 \<le> na (spline_order s)"
  shows "(isTsEvaluable nb na s ts \<longleftrightarrow> bracketed nb na s ts)
    \<and> (bracketed nb na s ts \<longleftrightarrow> ts \<in> {support_lo nb s .. support_hi na s})
    \<and> (ts \<notin> {support_lo nb s .. support_hi na s} \<longrightarrow> \<not> isTsEvaluable nb na s ts)"
proof -
  have iv: "isTsEvaluable nb na s ts \<longleftrightarrow> ts \<in> {support_lo nb s .. support_hi na s}"
    by (simp add: isTsEvaluable_def)
  have br: "bracketed nb na s ts \<longleftrightarrow> ts \<in> {support_lo nb s .. support_hi na s}"
  proof
    assume "bracketed nb na s ts"
    then show "ts \<in> {support_lo nb s .. support_hi na s}"
      using bracketed_iff [of s nb na ts, OF d nb na] support_lo_knot [of nb s, OF nb] support_hi_knot [of na s]
      by simp
  next
    assume m: "ts \<in> {support_lo nb s .. support_hi na s}"
    then have "support_lo nb s \<le> support_hi na s" by simp
    from support_nonempty_counts [of s nb na, OF d nb na this] m show "bracketed nb na s ts"
      using bracketed_iff [of s nb na ts, OF d nb na] support_lo_knot [of nb s, OF nb] support_hi_knot [of na s]
      by simp
  qed
  from iv br show ?thesis by simp
qed

theorem isTsEvaluable_closed_support_witness:
  "0 < mTimeInterval spline11 \<and> 1 \<le> (2::nat)
   \<and> isTsEvaluable (\<lambda>k. 2) (\<lambda>k. 2) spline11 (1 / 2)
   \<and> bracketed (\<lambda>k. 2) (\<lambda>k. 2) spline11 (1 / 2)
   \<and> - (1 / 10) \<notin> {support_lo (\<lambda>k. 2) spline11 .. support_hi (\<lambda>k. 2) spline11}
   \<and> \<not> isTsEvaluable (\<lambda>k. 2) (\<lambda>k. 2) spline11 (- (1 / 10))
   \<and> \<not> bracketed (\<lambda>k. 2) (\<lambda>k. 2) spline11 (- (1 / 10))"
proof -
  have d: "0 < mTimeInterval spline11" by (simp add: spline11_def)
  have k: "1 \<le> (\<lambda>k. 2 :: nat) (spline_order spline11)" by simp
  have lo: "support_lo (\<lambda>k. 2) spline11 = 1 / 10"
    by (simp add: support_lo_def spline11_def)
  have hi: "support_hi (\<lambda>k. 2) spline11 = 9 / 10"
    by (simp add: support_hi_def getControlPointNum_def spline11_def)
  show ?thesis
    using isTsEvaluable_closed_support [of spline11 "\<lambda>k. 2" "\<lambda>k. 2" "1 / 2", OF d k k]
      isTsEvaluable_closed_support [of spline11 "\<lambda>k. 2" "\<lambda>k. 2" "- (1 / 10)", OF d k k]
      d lo hi
    by (simp add: isTsEvaluable_def)
qed

subsection \<open>Adding a sample\<close>

lemma num_initialNewControlPoint:
  "getControlPointNum (initialNewControlPoint seed s) = Suc (getControlPointNum s)"
  by (simp add: getControlPointNum_def initialNewControlPoint_def)

lemma interval_initialNewControlPoint:
  "mTimeInterval (initialNewControlPoint seed s) = mTimeInterval s"
  by (simp add: initialNewControlPoint_def)

lemma support_hi_initialNewControlPoint:
  "support_hi na (initialNewControlPoint seed s) = support_hi na s + mTimeInterval s"
  by (simp add: support_hi_def getControlPointNum_def initialNewControlPoint_def algebra_simps)

lemma extend_to_returns:
  assumes d: "0 < mTimeInterval s"
  shows "\<exists>s'. extend_to na seed ts s = Some s'
           \<and> getControlPointNum s \<le> getControlPointNum s'
           \<and> (getControlPointNum s < getControlPointNum s' \<longrightarrow> support_hi na s < ts)"
  using d
proof (induction "nat \<lceil>(ts - support_hi na s) / mTimeInterval s\<rceil>" arbitrary: s rule: less_induct)
  case less
  show ?case
  proof (cases "support_hi na s < ts")
    case False
    then show ?thesis by (subst extend_to.simps) simp
  next
    case True
    let ?s1 = "initialNewControlPoint seed s"
    let ?d = "mTimeInterval s"
    have pos: "0 < (ts - support_hi na s) / ?d" using True less.prems by simp
    have eq: "(ts - support_hi na ?s1) / mTimeInterval ?s1 = (ts - support_hi na s) / ?d - 1"
    proof -
      have nz: "?d \<noteq> 0" using less.prems by simp
      have "(ts - (support_hi na s + ?d)) / ?d = (ts - support_hi na s) / ?d - ?d / ?d"
        by (simp add: diff_divide_distrib add_divide_distrib)
      with nz show ?thesis
        by (simp add: support_hi_initialNewControlPoint interval_initialNewControlPoint)
    qed
    have "0 < \<lceil>(ts - support_hi na s) / ?d\<rceil>" using pos by (simp add: ceiling_less_iff)
    then have dec: "nat \<lceil>(ts - support_hi na ?s1) / mTimeInterval ?s1\<rceil>
                   < nat \<lceil>(ts - support_hi na s) / ?d\<rceil>"
      by (simp add: eq)
    have d1: "0 < mTimeInterval ?s1" using less.prems by (simp add: interval_initialNewControlPoint)
    from less.hyps [OF dec d1] obtain s' where
      r: "extend_to na seed ts ?s1 = Some s'" and
      n: "getControlPointNum ?s1 \<le> getControlPointNum s'" by blast
    have "extend_to na seed ts s = Some s'"
      using True r by (subst extend_to.simps) simp
    moreover have "getControlPointNum s \<le> getControlPointNum s'"
      using n by (simp add: num_initialNewControlPoint)
    ultimately show ?thesis using True by blast
  qed
qed

text \<open>
  Claim C3 says that \<open>addSample\<close> never lowers the number of control points, and
  raises it only when the sample's time exceeds the upper end of the supported
  interval as it was before the call. With a positive interval the extension loop
  ends, so the call returns.
\<close>

theorem addSample_count_monotone:
  assumes d: "0 < mTimeInterval s"
  shows "\<exists>s'. addSample na seed s ts Q = Some s'
           \<and> getControlPointNum s \<le> getControlPointNum s'
           \<and> (getControlPointNum s < getControlPointNum s' \<longrightarrow> support_hi na s < ts)"
proof (cases "ts < t0 s")
  case True
  then show ?thesis by (simp add: addSample_def)
next
  case False
  from extend_to_returns [OF d, of na seed ts] obtain s' where
    r: "extend_to na seed ts s = Some s'" and
    n: "getControlPointNum s \<le> getControlPointNum s'" and
    m: "getControlPointNum s < getControlPointNum s' \<longrightarrow> support_hi na s < ts" by blast
  let ?s2 = "s'\<lparr>mSampleValues := (mSampleValues s')(ts \<mapsto> Q)\<rparr>"
  have "addSample na seed s ts Q = Some ?s2" using False r by (simp add: addSample_def)
  moreover have "getControlPointNum ?s2 = getControlPointNum s'"
    by (simp add: getControlPointNum_def)
  ultimately show ?thesis using n m by simp
qed

theorem addSample_count_monotone_witness:
  "0 < mTimeInterval spline5
   \<and> map_option getControlPointNum (addSample (\<lambda>k. 2) (\<lambda>s. (0, 0, 0)) spline5 (1 / 2) (1, 2, 3)) = Some 7
   \<and> support_hi (\<lambda>k. 2) spline5 < 1 / 2
   \<and> (\<exists>s'. addSample (\<lambda>k. 2) (\<lambda>s. (0, 0, 0)) spline5 (1 / 2) (1, 2, 3) = Some s'
         \<and> getControlPointNum spline5 \<le> getControlPointNum s'
         \<and> (getControlPointNum spline5 < getControlPointNum s' \<longrightarrow> support_hi (\<lambda>k. 2) spline5 < 1 / 2))"
proof -
  have d: "0 < mTimeInterval spline5" by (simp add: spline5_def)
  have c: "map_option getControlPointNum (addSample (\<lambda>k. 2) (\<lambda>s. (0, 0, 0)) spline5 (1 / 2) (1, 2, 3)) = Some 7"
    by code_simp
  have h: "support_hi (\<lambda>k. 2) spline5 < 1 / 2" by code_simp
  show ?thesis
    using d c h addSample_count_monotone [OF d, of "\<lambda>k. 2" "\<lambda>s. (0, 0, 0)" "1 / 2" "(1, 2, 3)"]
    by simp
qed

end
